theory Spec2Isabelle
  imports Main "HOL-Library.Word"
begin

unbundle bit_operations_syntax

section \<open>Machine integers\<close>

type_synonym u8 = "8 word"
type_synonym u16 = "16 word"

text \<open>
  Modelled from the spec: the helper \<open>BIT(x, n)\<close> is declared in the host framework and
  is not part of the driver sources. The drivers use it to extract bit \<open>n\<close> of \<open>x\<close>
  as the value 0 or 1 ("input bits extracted from designated bit positions of the
  clocked byte"): shift right by \<open>n\<close>, mask with 1.
\<close>

definition BIT :: "'a::len word \<Rightarrow> nat \<Rightarrow> 'a word" where
  "BIT x n = drop_bit n x AND 1"

section \<open>mrdo.cpp: the PAL16R6 protection latch\<close>

text \<open>
  \<open>mrdot_state\<close> derives from \<open>mrdo_state\<close> and overrides the virtual
  \<open>update_protection\<close>; the dynamic class of the driver object is kept in the state so
  that the virtual call can be dispatched. The tile and colour RAMs are stores from
  (bank, offset) to bytes; \<open>dirty_tiles\<close> records the \<open>mark_tile_dirty\<close> calls made
  on the two tilemaps.
\<close>

datatype mrdo_class = Mrdo_state | Mrdot_state

record mrdo_state =
  driver_class :: mrdo_class
  m_pal_u001 :: u8
  m_bypass_pal :: bool
  m_pal_enabled :: bool
  m_fieldram :: "nat \<Rightarrow> nat \<Rightarrow> u8"
  m_colorram :: "nat \<Rightarrow> nat \<Rightarrow> u8"
  dirty_tiles :: "(nat \<times> nat) list"

text \<open>
  The constructors. \<open>mrdo_state\<close> takes \<open>bypass_pal\<close> with default value true;
  \<open>mrdot_state\<close> passes false. Member initialisers: \<open>m_pal_u001 = 0\<close>,
  \<open>m_pal_enabled = true\<close>.
\<close>

definition mrdo_state_ctor :: "bool \<Rightarrow> mrdo_state" where
  "mrdo_state_ctor bypass_pal =
     \<lparr> driver_class = Mrdo_state, m_pal_u001 = 0, m_bypass_pal = bypass_pal,
       m_pal_enabled = True, m_fieldram = (\<lambda>_ _. 0), m_colorram = (\<lambda>_ _. 0),
       dirty_tiles = [] \<rparr>"

definition mrdot_state_ctor :: mrdo_state where
  "mrdot_state_ctor = (mrdo_state_ctor False)\<lparr> driver_class := Mrdot_state \<rparr>"

definition set_protection :: "bool \<Rightarrow> mrdo_state \<Rightarrow> mrdo_state" where
  "set_protection state s = s\<lparr> m_pal_enabled := state \<rparr>"

text \<open>
  The machine configurations: \<open>mrdo\<close> only adds devices (nothing of the modelled state
  changes), \<open>mrlo\<close> is \<open>mrdo\<close> followed by \<open>set_protection(false)\<close>.
\<close>

definition mrdo :: "mrdo_state \<Rightarrow> mrdo_state" where
  "mrdo s = s"

definition mrlo :: "mrdo_state \<Rightarrow> mrdo_state" where
  "mrlo s = set_protection False (mrdo s)"

definition mrdo_machine_reset :: "mrdo_state \<Rightarrow> mrdo_state" where
  "mrdo_machine_reset s = s\<lparr> m_pal_u001 := 0xff \<rparr>"

text \<open>
  \<open>protection_r\<close> reads the program ROM region, the Z80 register pair HL and the
  open-bus value of the address space (\<open>space.unmap()\<close>); these belong to the host and
  are parameters here. The ROM region is 0x10000 bytes, so a 16-bit HL always indexes
  inside it.
\<close>

definition protection_r :: "(nat \<Rightarrow> u8) \<Rightarrow> u16 \<Rightarrow> u8 \<Rightarrow> mrdo_state \<Rightarrow> u8" where
  "protection_r rom hl unmap s =
     (if m_pal_enabled s then
        (if m_bypass_pal s then rom (unat hl) else m_pal_u001 s)
      else unmap)"

text \<open>The base class \<open>update_protection\<close> has an empty body.\<close>

definition mrdo_update_protection :: "u8 \<Rightarrow> mrdo_state \<Rightarrow> mrdo_state" where
  "mrdo_update_protection data s = s"

definition mrdot_update_protection :: "u8 \<Rightarrow> mrdo_state \<Rightarrow> mrdo_state" where
  "mrdot_update_protection data s =
     (let i9 = BIT data 0;
          i8 = BIT data 1;
          i6 = BIT data 3;
          i5 = BIT data 4;
          i4 = BIT data 5;
          i3 = BIT data 6;
          i2 = BIT data 7;
          t1 = i2 AND (1 XOR i3) AND i4 AND (1 XOR i5) AND (1 XOR i6) AND (1 XOR i8) AND i9;
          t2 = (1 XOR i2) AND (1 XOR i3) AND i4 AND i5 AND (1 XOR i6) AND i8 AND (1 XOR i9);
          t3 = i2 AND i3 AND (1 XOR i4) AND (1 XOR i5) AND i6 AND (1 XOR i8) AND i9;
          t4 = (1 XOR i2) AND i3 AND i4 AND (1 XOR i5) AND i6 AND i8 AND i9;
          r12 = 0;
          r13 = push_bit 1 t1;
          r14 = push_bit 2 (t1 OR t2);
          r15 = push_bit 3 (t1 OR t3);
          r16 = push_bit 4 t1;
          r17 = push_bit 5 (t1 OR t3);
          r18 = push_bit 6 (t3 OR t4);
          r19 = 0
      in s\<lparr> m_pal_u001 := NOT (r19 OR r18 OR r17 OR r16 OR r15 OR r14 OR r13 OR r12) \<rparr>)"

text \<open>The virtual call \<open>update_protection(data)\<close>, dispatched on the dynamic class.\<close>

definition update_protection :: "u8 \<Rightarrow> mrdo_state \<Rightarrow> mrdo_state" where
  "update_protection data s =
     (case driver_class s of
        Mrdo_state \<Rightarrow> mrdo_update_protection data s
      | Mrdot_state \<Rightarrow> mrdot_update_protection data s)"

definition protection_w :: "u8 \<Rightarrow> mrdo_state \<Rightarrow> mrdo_state" where
  "protection_w data s = (if m_pal_enabled s then update_protection data s else s)"

text \<open>
  The tile RAM write handlers (\<open>Which\<close> is the template parameter, 0 or 1): store
  the byte and mark the tile dirty when the byte changes, then clock the protection.
\<close>

definition fieldram_w :: "nat \<Rightarrow> nat \<Rightarrow> u8 \<Rightarrow> mrdo_state \<Rightarrow> mrdo_state" where
  "fieldram_w which offset data s =
     (let s1 = (if m_fieldram s which offset \<noteq> data
                then s\<lparr> m_fieldram := (m_fieldram s)(which := (m_fieldram s which)(offset := data)),
                        dirty_tiles := dirty_tiles s @ [(which, offset)] \<rparr>
                else s)
      in protection_w data s1)"

definition colorram_w :: "nat \<Rightarrow> nat \<Rightarrow> u8 \<Rightarrow> mrdo_state \<Rightarrow> mrdo_state" where
  "colorram_w which offset data s =
     (let s1 = (if m_colorram s which offset \<noteq> data
                then s\<lparr> m_colorram := (m_colorram s)(which := (m_colorram s which)(offset := data)),
                        dirty_tiles := dirty_tiles s @ [(which, offset)] \<rparr>
                else s)
      in protection_w data s1)"

text \<open>
  The documented sum-of-products equations of the PAL, written over the input pins as
  truth values: pins i9, i8, i6, i5, i4, i3, i2 are bits 0, 1, 3, 4, 5, 6, 7 of the
  clocked byte (bit 2, pin 7, is not connected to any term).
\<close>

definition pal_equations :: "u8 \<Rightarrow> u8" where
  "pal_equations d =
     (let i9 = bit d 0;
          i8 = bit d 1;
          i6 = bit d 3;
          i5 = bit d 4;
          i4 = bit d 5;
          i3 = bit d 6;
          i2 = bit d 7;
          t1 = (i2 \<and> \<not> i3 \<and> i4 \<and> \<not> i5 \<and> \<not> i6 \<and> \<not> i8 \<and> i9);
          t2 = (\<not> i2 \<and> \<not> i3 \<and> i4 \<and> i5 \<and> \<not> i6 \<and> i8 \<and> \<not> i9);
          t3 = (i2 \<and> i3 \<and> \<not> i4 \<and> \<not> i5 \<and> i6 \<and> \<not> i8 \<and> i9);
          t4 = (\<not> i2 \<and> i3 \<and> i4 \<and> \<not> i5 \<and> i6 \<and> i8 \<and> i9)
      in NOT (push_bit 1 (of_bool t1)
           OR push_bit 2 (of_bool (t1 \<or> t2))
           OR push_bit 3 (of_bool (t1 \<or> t3))
           OR push_bit 4 (of_bool t1)
           OR push_bit 5 (of_bool (t1 \<or> t3))
           OR push_bit 6 (of_bool (t3 \<or> t4))))"

text \<open>
  Bus writes into the tile and colour RAM windows (0x8000-0x8fff), and runs of them.
\<close>

datatype tram_write = Fieldram_w nat nat u8 | Colorram_w nat nat u8

fun tram_w :: "tram_write \<Rightarrow> mrdo_state \<Rightarrow> mrdo_state" where
  "tram_w (Fieldram_w which offset data) s = fieldram_w which offset data s"
| "tram_w (Colorram_w which offset data) s = colorram_w which offset data s"

fun tram_run :: "tram_write list \<Rightarrow> mrdo_state \<Rightarrow> mrdo_state" where
  "tram_run [] s = s"
| "tram_run (w # ws) s = tram_run ws (tram_w w s)"

section \<open>docastle.cpp: the latch bridge and the MA6 interrupt\<close>

text \<open>
  The driver calls into the host (CPU devices, scheduler). Each handler returns the new
  driver state together with the host calls it made, in order. CPUs are named by their
  index in \<open>m_cpu\<close>: \<open>Spin_until_trigger c n\<close> is
  \<open>m_cpu[c]->spin_until_trigger(n)\<close>, \<open>Scheduler_trigger n\<close> is
  \<open>machine().scheduler().trigger(n)\<close>, \<open>Pulse_input_line c l\<close> is
  \<open>m_cpu[c]->pulse_input_line(l, attotime::zero)\<close> and \<open>Set_input_line c l v\<close> is
  \<open>m_cpu[c]->set_input_line(l, v)\<close>.
\<close>

datatype input_line = INPUT_LINE_IRQ0 | INPUT_LINE_NMI

datatype line_state = CLEAR_LINE | ASSERT_LINE | HOLD_LINE

datatype host_call =
    Spin_until_trigger nat nat
  | Scheduler_trigger nat
  | Pulse_input_line nat input_line
  | Set_input_line nat input_line line_state

text \<open>
  The build has \<open>USE_LATCH\<close> false, so the two buffers of nine bytes exist and the
  \<open>m_latch\<close> branches are compiled out. A buffer is a store from offsets to bytes; its
  extent is 9, and an access at an offset outside the array has no defined result
  (\<open>None\<close>). The address maps decode exactly offsets 0..8.
\<close>

record docastle_state =
  m_prev_ma6 :: bool
  m_buffer0 :: "nat \<Rightarrow> u8"
  m_buffer1 :: "nat \<Rightarrow> u8"

definition docastle_state_ctor :: docastle_state where
  "docastle_state_ctor = \<lparr> m_prev_ma6 = False, m_buffer0 = (\<lambda>_. 0), m_buffer1 = (\<lambda>_. 0) \<rparr>"

text \<open>\<open>std::fill\<close> over the nine cells of an array.\<close>

definition fill9 :: "(nat \<Rightarrow> u8) \<Rightarrow> u8 \<Rightarrow> (nat \<Rightarrow> u8)" where
  "fill9 buf v = (\<lambda>i. if i < 9 then v else buf i)"

definition docastle_machine_reset :: "docastle_state \<Rightarrow> docastle_state" where
  "docastle_machine_reset s =
     s\<lparr> m_buffer0 := fill9 (m_buffer0 s) 0, m_buffer1 := fill9 (m_buffer1 s) 0,
       m_prev_ma6 := False \<rparr>"

text \<open>
  \<open>LOG\<close> is defined as 0: the \<open>logerror\<close> statements, guarded by
  \<open>offset == 8 && LOG\<close>, never run and have no counterpart here.
\<close>

definition cpu1_latch_r :: "nat \<Rightarrow> docastle_state \<Rightarrow> u8 option" where
  "cpu1_latch_r offset s = (if offset < 9 then Some (m_buffer0 s offset) else None)"

definition cpu1_latch_w :: "nat \<Rightarrow> u8 \<Rightarrow> docastle_state \<Rightarrow> (docastle_state \<times> host_call list) option" where
  "cpu1_latch_w offset data s =
     (if offset < 9 then
        Some (s\<lparr> m_buffer1 := (m_buffer1 s)(offset := data) \<rparr>,
              if offset = 8 then [Spin_until_trigger 0 500] else [])
      else None)"

definition cpu2_latch_r :: "nat \<Rightarrow> docastle_state \<Rightarrow> u8 option" where
  "cpu2_latch_r offset s = (if offset < 9 then Some (m_buffer1 s offset) else None)"

definition cpu2_latch_w :: "nat \<Rightarrow> u8 \<Rightarrow> docastle_state \<Rightarrow> (docastle_state \<times> host_call list) option" where
  "cpu2_latch_w offset data s =
     (if offset < 9 then
        Some (s\<lparr> m_buffer0 := (m_buffer0 s)(offset := data) \<rparr>,
              if offset = 8 then [Scheduler_trigger 500] else [])
      else None)"

definition nmi_trigger_w :: "u8 \<Rightarrow> docastle_state \<Rightarrow> docastle_state \<times> host_call list" where
  "nmi_trigger_w data s = (s, [Pulse_input_line 1 INPUT_LINE_NMI])"

text \<open>
  \<open>tint\<close> is the CRTC's horizontal-sync callback; \<open>ma\<close> is the value that
  \<open>m_crtc->get_ma()\<close> returns at the call.
\<close>

definition tint :: "int \<Rightarrow> u16 \<Rightarrow> docastle_state \<Rightarrow> docastle_state \<times> host_call list" where
  "tint state ma s =
     (if state \<noteq> 0 then
        (let ma6 = (BIT ma 6 \<noteq> 0);
             calls = (if ma6 \<and> \<not> m_prev_ma6 s
                      then [Set_input_line 1 INPUT_LINE_IRQ0 HOLD_LINE] else [])
         in (s\<lparr> m_prev_ma6 := ma6 \<rparr>, calls))
      else (s, []))"

text \<open>
  A run of horizontal-sync samples (\<open>tint\<close> called with the sync asserted), one per
  sampled counter value; the result tells for each sample whether the interrupt line of
  the second CPU was raised.
\<close>

definition irq_fired :: "host_call list \<Rightarrow> bool" where
  "irq_fired calls = (Set_input_line 1 INPUT_LINE_IRQ0 HOLD_LINE \<in> set calls)"

fun tint_samples :: "u16 list \<Rightarrow> docastle_state \<Rightarrow> bool list" where
  "tint_samples [] s = []"
| "tint_samples (ma # mas) s =
     (case tint 1 ma s of (s', calls) \<Rightarrow> irq_fired calls # tint_samples mas s')"

definition ma6_bits :: "u16 list \<Rightarrow> bool list" where
  "ma6_bits mas = map (\<lambda>ma. bit ma 6) mas"

text \<open>
  Consecutive writes of a byte sequence by one CPU, starting at a given offset; the
  host calls of the single writes are concatenated.
\<close>

fun cpu1_write_seq :: "nat \<Rightarrow> u8 list \<Rightarrow> docastle_state \<Rightarrow> (docastle_state \<times> host_call list) option" where
  "cpu1_write_seq offset [] s = Some (s, [])"
| "cpu1_write_seq offset (b # bs) s =
     (case cpu1_latch_w offset b s of
        None \<Rightarrow> None
      | Some (s1, c1) \<Rightarrow>
          (case cpu1_write_seq (Suc offset) bs s1 of
             None \<Rightarrow> None
           | Some (s2, c2) \<Rightarrow> Some (s2, c1 @ c2)))"

fun cpu2_write_seq :: "nat \<Rightarrow> u8 list \<Rightarrow> docastle_state \<Rightarrow> (docastle_state \<times> host_call list) option" where
  "cpu2_write_seq offset [] s = Some (s, [])"
| "cpu2_write_seq offset (b # bs) s =
     (case cpu2_latch_w offset b s of
        None \<Rightarrow> None
      | Some (s1, c1) \<Rightarrow>
          (case cpu2_write_seq (Suc offset) bs s1 of
             None \<Rightarrow> None
           | Some (s2, c2) \<Rightarrow> Some (s2, c1 @ c2)))"

definition cpu2_read_all :: "docastle_state \<Rightarrow> u8 option list" where
  "cpu2_read_all s = map (\<lambda>offset. cpu2_latch_r offset s) [0..<9]"

section \<open>The host scheduler\<close>

text \<open>
  The driver hands two calls to the host scheduler, \<open>spin_until_trigger\<close> on the
  first CPU and \<open>scheduler().trigger\<close>; their bodies belong to the host framework
  and are not part of the driver sources. They are modelled below as the spec
  describes them.

  \<open>wake_at sch c = Some t\<close>: the task of CPU \<open>c\<close> is suspended and will be woken at
  time \<open>t\<close> at the latest; \<open>None\<close>: the task is running.
\<close>

record scheduler =
  now :: nat
  wake_at :: "nat \<Rightarrow> nat option"

text \<open>
  Modelled from the spec: \<open>spin_until_trigger\<close> of the host's CPU device interface is
  missing from the sources. The spec: the writing CPU's "execution is suspended for a
  bounded duration (a fixed scheduling quantum, e.g. 500 abstract time units) OR until
  explicitly resumed, whichever comes first", by "a monotonically scheduled wake event
  at now + timeout".
\<close>

definition spin_until_trigger :: "nat \<Rightarrow> nat \<Rightarrow> scheduler \<Rightarrow> scheduler" where
  "spin_until_trigger cpu quantum sch =
     sch\<lparr> wake_at := (wake_at sch)(cpu := Some (now sch + quantum)) \<rparr>"

text \<open>
  Modelled from the spec: \<open>trigger\<close> of the host scheduler is missing from the
  sources. The spec: the resume signal, "when signaled, cancels the pending timeout
  wake and resumes the task immediately".
\<close>

definition trigger :: "nat \<Rightarrow> scheduler \<Rightarrow> scheduler" where
  "trigger trigid sch = sch\<lparr> wake_at := (\<lambda>cpu. None) \<rparr>"

text \<open>
  Modelled from the spec: the passing of one abstract time unit in the host scheduler,
  which is missing from the sources. A pending wake event whose time has come resumes
  its task.
\<close>

definition due :: "nat \<Rightarrow> nat option \<Rightarrow> nat option" where
  "due t w = (case w of None \<Rightarrow> None | Some t' \<Rightarrow> if t' \<le> t then None else Some t')"

definition tick :: "scheduler \<Rightarrow> scheduler" where
  "tick sch = sch\<lparr> now := Suc (now sch), wake_at := (\<lambda>cpu. due (Suc (now sch)) (wake_at sch cpu)) \<rparr>"

fun host_do :: "host_call \<Rightarrow> scheduler \<Rightarrow> scheduler" where
  "host_do (Spin_until_trigger cpu quantum) sch = spin_until_trigger cpu quantum sch"
| "host_do (Scheduler_trigger trigid) sch = trigger trigid sch"
| "host_do (Pulse_input_line cpu line) sch = sch"
| "host_do (Set_input_line cpu line st) sch = sch"

fun host_do_all :: "host_call list \<Rightarrow> scheduler \<Rightarrow> scheduler" where
  "host_do_all [] sch = sch"
| "host_do_all (c # cs) sch = host_do_all cs (host_do c sch)"

text \<open>
  What can happen while the first CPU is suspended: the second CPU reads or writes the
  latch window, or one unit of time passes. A machine is the driver state with the
  scheduler.
\<close>

datatype slave_event = Cpu2_read nat | Cpu2_write nat u8 | Tick

fun slave_step :: "slave_event \<Rightarrow> docastle_state \<times> scheduler \<Rightarrow> (docastle_state \<times> scheduler) option" where
  "slave_step (Cpu2_read offset) (s, sch) =
     (case cpu2_latch_r offset s of None \<Rightarrow> None | Some v \<Rightarrow> Some (s, sch))"
| "slave_step (Cpu2_write offset data) (s, sch) =
     (case cpu2_latch_w offset data s of
        None \<Rightarrow> None
      | Some (s', calls) \<Rightarrow> Some (s', host_do_all calls sch))"
| "slave_step Tick (s, sch) = Some (s, tick sch)"

fun slave_run :: "slave_event list \<Rightarrow> docastle_state \<times> scheduler \<Rightarrow> (docastle_state \<times> scheduler) option" where
  "slave_run [] m = Some m"
| "slave_run (e # es) m = (case slave_step e m of None \<Rightarrow> None | Some m' \<Rightarrow> slave_run es m')"

text \<open>The first CPU's write, with its host calls carried out by the scheduler.\<close>

definition master_write :: "nat \<Rightarrow> u8 \<Rightarrow> docastle_state \<times> scheduler \<Rightarrow> (docastle_state \<times> scheduler) option" where
  "master_write offset data m =
     (case cpu1_latch_w offset data (fst m) of
        None \<Rightarrow> None
      | Some (s', calls) \<Rightarrow> Some (s', host_do_all calls (snd m)))"

definition is_resume :: "slave_event \<Rightarrow> bool" where
  "is_resume e = (case e of Cpu2_write offset data \<Rightarrow> offset = 8 | _ \<Rightarrow> False)"

definition in_window :: "slave_event \<Rightarrow> bool" where
  "in_window e = (case e of Cpu2_read offset \<Rightarrow> offset < 9 | Cpu2_write offset data \<Rightarrow> offset < 9 | Tick \<Rightarrow> True)"

definition quiet :: "slave_event \<Rightarrow> bool" where
  "quiet e = (in_window e \<and> \<not> is_resume e)"

definition ticks :: "slave_event list \<Rightarrow> nat" where
  "ticks es = length (filter (\<lambda>e. e = Tick) es)"

definition scheduler_start :: scheduler where
  "scheduler_start = \<lparr> now = 0, wake_at = (\<lambda>cpu. None) \<rparr>"

section \<open>The protection latch\<close>

lemma BIT_of_bool: "BIT x n = of_bool (bit x n)"
  unfolding BIT_def
  apply (rule bit_eqI)
  apply (auto simp add: bit_simps)
  done

lemma BIT_nonzero: "(BIT x n \<noteq> 0) = bit x n"
  by (simp add: BIT_of_bool)

text \<open>
  The latch computed with the byte operations of the driver is the value of the
  equations. After \<open>BIT\<close> is rewritten to the truth value of the bit, both sides
  depend on seven truth values only; each of the 128 combinations is evaluated.
\<close>

lemma mrdot_latch: "m_pal_u001 (mrdot_update_protection d s) = pal_equations d"
  unfolding mrdot_update_protection_def pal_equations_def Let_def BIT_of_bool
  by (cases "bit d 0"; cases "bit d 1"; cases "bit d 3"; cases "bit d 4";
      cases "bit d 5"; cases "bit d 6"; cases "bit d 7"; simp)

lemma mrdot_frame: "mrdot_update_protection d s = s\<lparr> m_pal_u001 := pal_equations d \<rparr>"
  using mrdot_latch [of d s] by (simp add: mrdot_update_protection_def Let_def)

lemma pal_equations_mask: "pal_equations (d AND 0xFB) = pal_equations d"
  by (simp add: pal_equations_def bit_simps)

lemma pal_equations_high: "pal_equations d AND 0x81 = 0x81"
  unfolding pal_equations_def Let_def
  by (cases "bit d 0"; cases "bit d 1"; cases "bit d 3"; cases "bit d 4";
      cases "bit d 5"; cases "bit d 6"; cases "bit d 7"; simp)

text \<open>
  C1. On the protection-enabled board (class \<open>mrdot_state\<close>, protection enabled, no
  bypass), clocking the latch with any byte \<open>d\<close> and then reading the protection
  address gives exactly the value of the documented sum-of-products equations, and so
  does the stored latch; the clock may come through \<open>protection_w\<close>, as it does on a
  tile RAM write.
\<close>

theorem mrdot_latch_matches_equations:
  assumes "driver_class s = Mrdot_state" and "m_pal_enabled s" and "\<not> m_bypass_pal s"
  shows "m_pal_u001 (update_protection d s) = pal_equations d
       \<and> protection_r rom hl unmap (update_protection d s) = pal_equations d
       \<and> protection_r rom hl unmap (protection_w d s) = pal_equations d"
  using assms
  by (simp add: update_protection_def protection_w_def protection_r_def mrdot_frame)

theorem mrdot_latch_matches_equations_witness:
  "driver_class (mrdo mrdot_state_ctor) = Mrdot_state
   \<and> m_pal_enabled (mrdo mrdot_state_ctor)
   \<and> \<not> m_bypass_pal (mrdo mrdot_state_ctor)
   \<and> protection_r of_nat 0x1234 0 (update_protection 0xA1 (mrdo mrdot_state_ctor)) = 0xC1"
proof -
  have h: "driver_class (mrdo mrdot_state_ctor) = Mrdot_state"
    "m_pal_enabled (mrdo mrdot_state_ctor)" "\<not> m_bypass_pal (mrdo mrdot_state_ctor)"
    by (simp_all add: mrdo_def mrdot_state_ctor_def mrdo_state_ctor_def)
  have e: "pal_equations 0xA1 = 0xC1"
    by (simp add: pal_equations_def)
  from mrdot_latch_matches_equations
         [OF h, where rom = of_nat and hl = "0x1234" and unmap = 0 and d = "0xA1"] h e
  show ?thesis by simp
qed

text \<open>
  C4. Two clocked bytes that agree on every bit except possibly bit 2 (they are equal
  under the mask 0xFB) store the same latch value: bit 2 of the input never reaches
  the output.
\<close>

theorem mrdot_latch_ignores_bit2:
  assumes "d AND 0xFB = d' AND 0xFB"
  shows "m_pal_u001 (mrdot_update_protection d s) = m_pal_u001 (mrdot_update_protection d' s')"
proof -
  have "pal_equations d = pal_equations (d AND 0xFB)"
    by (simp only: pal_equations_mask)
  also have "\<dots> = pal_equations (d' AND 0xFB)"
    using assms by simp
  also have "\<dots> = pal_equations d'"
    by (simp only: pal_equations_mask)
  finally show ?thesis
    by (simp only: mrdot_latch)
qed

theorem mrdot_latch_ignores_bit2_witness:
  "(0xA1 :: u8) AND 0xFB = 0xA5 AND 0xFB
   \<and> m_pal_u001 (mrdot_update_protection 0xA1 mrdot_state_ctor)
       = m_pal_u001 (mrdot_update_protection 0xA5 mrdot_state_ctor)
   \<and> m_pal_u001 (mrdot_update_protection 0xA5 mrdot_state_ctor) = 0xC1"
proof -
  have h: "(0xA1 :: u8) AND 0xFB = 0xA5 AND 0xFB"
    by simp
  have e: "m_pal_u001 (mrdot_update_protection 0xA5 mrdot_state_ctor) = 0xC1"
    by (simp add: mrdot_latch pal_equations_def)
  from mrdot_latch_ignores_bit2 [OF h, of mrdot_state_ctor mrdot_state_ctor] h e
  show ?thesis by simp
qed

subsection \<open>Tile RAM writes\<close>

lemma tram_w_flags:
  "driver_class (tram_w w s) = driver_class s \<and> m_pal_enabled (tram_w w s) = m_pal_enabled s
   \<and> m_bypass_pal (tram_w w s) = m_bypass_pal s"
  by (cases w) (simp_all add: fieldram_w_def colorram_w_def protection_w_def
      update_protection_def mrdo_update_protection_def mrdot_frame Let_def
      split: mrdo_class.split)

lemma tram_run_flags:
  "driver_class (tram_run ws s) = driver_class s \<and> m_pal_enabled (tram_run ws s) = m_pal_enabled s
   \<and> m_bypass_pal (tram_run ws s) = m_bypass_pal s"
  by (induction ws arbitrary: s) (simp_all add: tram_w_flags)

lemma tram_w_high:
  "m_pal_u001 s AND 0x81 = 0x81 \<Longrightarrow> m_pal_u001 (tram_w w s) AND 0x81 = 0x81"
  by (cases w) (simp_all add: fieldram_w_def colorram_w_def protection_w_def
      update_protection_def mrdo_update_protection_def mrdot_frame pal_equations_high Let_def
      split: mrdo_class.split)

lemma tram_run_high:
  "m_pal_u001 s AND 0x81 = 0x81 \<Longrightarrow> m_pal_u001 (tram_run ws s) AND 0x81 = 0x81"
  by (induction ws arbitrary: s) (simp_all add: tram_w_high)

lemma tram_w_base:
  "driver_class s = Mrdo_state \<Longrightarrow>
   driver_class (tram_w w s) = Mrdo_state \<and> m_pal_u001 (tram_w w s) = m_pal_u001 s"
  by (cases w) (simp_all add: fieldram_w_def colorram_w_def protection_w_def
      update_protection_def mrdo_update_protection_def Let_def)

lemma tram_run_base:
  "driver_class s = Mrdo_state \<Longrightarrow> m_pal_u001 (tram_run ws s) = m_pal_u001 s"
  by (induction ws arbitrary: s) (simp_all add: tram_w_base)

text \<open>
  C9. Bits 0 and 7 of the output latch are always 1: the reset value has them, every
  value stored by the \<open>mrdot_state\<close> clock has them, and so has the latch after any
  run of tile RAM writes that follows a reset.
\<close>

theorem mrdot_latch_bits_0_7_high:
  "m_pal_u001 (mrdo_machine_reset s) AND 0x81 = 0x81
   \<and> m_pal_u001 (mrdot_update_protection d s) AND 0x81 = 0x81
   \<and> m_pal_u001 (tram_run ws (mrdo_machine_reset s)) AND 0x81 = 0x81"
proof -
  have r: "m_pal_u001 (mrdo_machine_reset s) AND 0x81 = 0x81"
    by (simp add: mrdo_machine_reset_def)
  have u: "m_pal_u001 (mrdot_update_protection d s) AND 0x81 = 0x81"
    by (simp only: mrdot_latch pal_equations_high)
  from r u tram_run_high [OF r] show ?thesis by simp
qed

text \<open>
  C10. On the base board (class \<open>mrdo_state\<close>) the clock does nothing: the virtual
  \<open>update_protection\<close> and \<open>protection_w\<close> return the state unchanged for every
  byte, and after a reset the latch is 0xff whatever is written to the tile RAMs.
\<close>

theorem mrdo_update_protection_noop:
  assumes "driver_class s = Mrdo_state"
  shows "update_protection d s = s \<and> protection_w d s = s
       \<and> m_pal_u001 (tram_run ws (mrdo_machine_reset s)) = 0xff"
proof -
  have "driver_class (mrdo_machine_reset s) = Mrdo_state"
    using assms by (simp add: mrdo_machine_reset_def)
  from tram_run_base [OF this]
  have "m_pal_u001 (tram_run ws (mrdo_machine_reset s)) = 0xff"
    by (simp add: mrdo_machine_reset_def)
  with assms show ?thesis
    by (simp add: update_protection_def mrdo_update_protection_def protection_w_def)
qed

theorem mrdo_update_protection_noop_witness:
  "driver_class (mrdo (mrdo_state_ctor True)) = Mrdo_state
   \<and> m_bypass_pal (mrdo (mrdo_state_ctor True))
   \<and> update_protection 0xA1 (mrdo (mrdo_state_ctor True)) = mrdo (mrdo_state_ctor True)
   \<and> m_pal_u001 (tram_run [Fieldram_w 0 5 0xA1, Colorram_w 1 7 0xC9]
        (mrdo_machine_reset (mrdo (mrdo_state_ctor True)))) = 0xff"
proof -
  have h: "driver_class (mrdo (mrdo_state_ctor True)) = Mrdo_state"
    by (simp add: mrdo_def mrdo_state_ctor_def)
  have b: "m_bypass_pal (mrdo (mrdo_state_ctor True))"
    by (simp add: mrdo_def mrdo_state_ctor_def)
  from mrdo_update_protection_noop
         [OF h, of "0xA1" "[Fieldram_w 0 5 0xA1, Colorram_w 1 7 0xC9]"] h b
  show ?thesis by simp
qed

text \<open>
  C2, as stated, at the Mr. Lo! machine (enabled false, bypass true) with a ROM whose
  byte at address \<open>a\<close> is \<open>a mod 256\<close>, HL = 0x1234 and open-bus value 0: the read
  returns 0, the ROM byte at HL is 0x34.
\<close>

theorem protection_r_disabled_counterexample:
  "\<not> m_pal_enabled (mrdo_machine_reset (mrlo (mrdo_state_ctor True)))
   \<and> m_bypass_pal (mrdo_machine_reset (mrlo (mrdo_state_ctor True)))
   \<and> protection_r of_nat 0x1234 0 (mrdo_machine_reset (mrlo (mrdo_state_ctor True)))
       \<noteq> of_nat (unat (0x1234 :: u16))"
  by (simp add: protection_r_def mrdo_machine_reset_def mrlo_def mrdo_def set_protection_def
      mrdo_state_ctor_def)

text \<open>
  C2, amended. With the bypass flag true, and after any run of tile RAM writes, a read
  of the protection address returns the program ROM byte at offset HL when protection
  is enabled, and the open-bus value of the address space when it is disabled; in
  neither case the latch.
\<close>

theorem protection_r_bypass:
  assumes "m_bypass_pal s"
  shows "protection_r rom hl unmap (tram_run ws s)
           = (if m_pal_enabled s then rom (unat hl) else unmap)"
  using assms by (simp add: protection_r_def tram_run_flags)

theorem protection_r_bypass_witness:
  "m_bypass_pal (mrdo (mrdo_state_ctor True))
   \<and> protection_r of_nat 0x1234 0
        (tram_run [Fieldram_w 0 5 0xA1] (mrdo (mrdo_state_ctor True))) = 0x34
   \<and> m_bypass_pal (mrlo (mrdo_state_ctor True))
   \<and> protection_r of_nat 0x1234 0
        (tram_run [Fieldram_w 0 5 0xA1] (mrlo (mrdo_state_ctor True))) = 0"
proof -
  have h: "m_bypass_pal (mrdo (mrdo_state_ctor True))"
    by (simp add: mrdo_def mrdo_state_ctor_def)
  have k: "m_bypass_pal (mrlo (mrdo_state_ctor True))"
    by (simp add: mrlo_def mrdo_def set_protection_def mrdo_state_ctor_def)
  have e: "m_pal_enabled (mrdo (mrdo_state_ctor True))"
    "\<not> m_pal_enabled (mrlo (mrdo_state_ctor True))"
    by (simp_all add: mrlo_def mrdo_def set_protection_def mrdo_state_ctor_def)
  from protection_r_bypass [OF h, of of_nat "0x1234" 0 "[Fieldram_w 0 5 0xA1]"]
       protection_r_bypass [OF k, of of_nat "0x1234" 0 "[Fieldram_w 0 5 0xA1]"] h k e
  show ?thesis by simp
qed

section \<open>The latch bridge\<close>

lemma cpu1_latch_w_Some:
  "offset < 9 \<Longrightarrow> cpu1_latch_w offset data s =
     Some (s\<lparr> m_buffer1 := (m_buffer1 s)(offset := data) \<rparr>,
           if offset = 8 then [Spin_until_trigger 0 500] else [])"
  by (simp add: cpu1_latch_w_def)

lemma cpu2_latch_w_Some:
  "offset < 9 \<Longrightarrow> cpu2_latch_w offset data s =
     Some (s\<lparr> m_buffer0 := (m_buffer0 s)(offset := data) \<rparr>,
           if offset = 8 then [Scheduler_trigger 500] else [])"
  by (simp add: cpu2_latch_w_def)

text \<open>
  C7. A write at an offset from 0 to 7, by either CPU, stores the byte in the cell of
  the writer's outbound buffer, changes nothing else and makes no host call. A write at
  offset 8 stores its byte as well, and makes exactly one host call: the first CPU
  spins until triggered, the second CPU fires the trigger.
\<close>

theorem latch_w_frame:
  "(offset \<le> 7 \<longrightarrow>
      cpu1_latch_w offset data s = Some (s\<lparr> m_buffer1 := (m_buffer1 s)(offset := data) \<rparr>, [])
    \<and> cpu2_latch_w offset data s = Some (s\<lparr> m_buffer0 := (m_buffer0 s)(offset := data) \<rparr>, []))
   \<and> cpu1_latch_w 8 data s
       = Some (s\<lparr> m_buffer1 := (m_buffer1 s)(8 := data) \<rparr>, [Spin_until_trigger 0 500])
   \<and> cpu2_latch_w 8 data s
       = Some (s\<lparr> m_buffer0 := (m_buffer0 s)(8 := data) \<rparr>, [Scheduler_trigger 500])"
  by (simp add: cpu1_latch_w_Some cpu2_latch_w_Some)

theorem latch_w_frame_witness:
  "(3::nat) \<le> 7
   \<and> cpu1_latch_w 3 0x5A docastle_state_ctor
       = Some (docastle_state_ctor\<lparr> m_buffer1 := (m_buffer1 docastle_state_ctor)(3 := 0x5A) \<rparr>, [])
   \<and> cpu2_latch_r 3 (fst (the (cpu1_latch_w 3 0x5A docastle_state_ctor))) = Some 0x5A
   \<and> snd (the (cpu1_latch_w 8 0x5A docastle_state_ctor)) = [Spin_until_trigger 0 500]
   \<and> snd (the (cpu2_latch_w 8 0x5A docastle_state_ctor)) = [Scheduler_trigger 500]"
  using latch_w_frame [of 3 "0x5A" docastle_state_ctor]
  by (simp add: cpu2_latch_r_def)

lemma cpu1_write_seq_buffer:
  "offset + length bs \<le> 9 \<Longrightarrow>
   \<exists>s' calls. cpu1_write_seq offset bs s = Some (s', calls)
     \<and> (\<forall>i. m_buffer1 s' i =
           (if offset \<le> i \<and> i < offset + length bs then bs ! (i - offset) else m_buffer1 s i))
     \<and> calls = (if bs \<noteq> [] \<and> offset + length bs = 9 then [Spin_until_trigger 0 500] else [])"
proof (induction bs arbitrary: offset s)
  case Nil
  then show ?case by auto
next
  case (Cons b bs)
  let ?s1 = "s\<lparr> m_buffer1 := (m_buffer1 s)(offset := b) \<rparr>"
  from Cons.prems have o: "offset < 9" and l: "Suc offset + length bs \<le> 9"
    by simp_all
  from Cons.IH [OF l, of ?s1] obtain s' calls where
    r: "cpu1_write_seq (Suc offset) bs ?s1 = Some (s', calls)"
    and b1: "\<And>i. m_buffer1 s' i =
       (if Suc offset \<le> i \<and> i < Suc offset + length bs then bs ! (i - Suc offset)
        else m_buffer1 ?s1 i)"
    and c: "calls = (if bs \<noteq> [] \<and> Suc offset + length bs = 9 then [Spin_until_trigger 0 500] else [])"
    by blast
  have w: "cpu1_write_seq offset (b # bs) s =
      Some (s', (if offset = 8 then [Spin_until_trigger 0 500] else []) @ calls)"
    using r o by (simp add: cpu1_latch_w_Some)
  have m: "m_buffer1 s' i =
      (if offset \<le> i \<and> i < offset + length (b # bs) then (b # bs) ! (i - offset)
       else m_buffer1 s i)" for i
    unfolding b1 by (auto simp add: nth_Cons' Suc_diff_Suc)
  have k: "(if offset = 8 then [Spin_until_trigger 0 500] else []) @ calls
      = (if b # bs \<noteq> [] \<and> offset + length (b # bs) = 9 then [Spin_until_trigger 0 500] else [])"
    using c l by (cases bs) auto
  from w m k show ?case by simp
qed

lemma cpu2_write_seq_buffer:
  "offset + length bs \<le> 9 \<Longrightarrow>
   \<exists>s' calls. cpu2_write_seq offset bs s = Some (s', calls) \<and> m_buffer1 s' = m_buffer1 s"
proof (induction bs arbitrary: offset s)
  case Nil
  then show ?case by simp
next
  case (Cons b bs)
  let ?s1 = "s\<lparr> m_buffer0 := (m_buffer0 s)(offset := b) \<rparr>"
  from Cons.prems have o: "offset < 9" and l: "Suc offset + length bs \<le> 9"
    by simp_all
  from Cons.IH [OF l, of ?s1] obtain s' calls where
    "cpu2_write_seq (Suc offset) bs ?s1 = Some (s', calls)" "m_buffer1 s' = m_buffer1 ?s1"
    by blast
  then show ?case using o by (simp add: cpu2_latch_w_Some)
qed

lemma cpu2_read_all_eq: "cpu2_read_all s = map (\<lambda>i. Some (m_buffer1 s i)) [0..<9]"
  unfolding cpu2_read_all_def by (rule map_cong) (simp_all add: cpu2_latch_r_def)

text \<open>
  C5. When the first CPU writes nine bytes \<open>b0..b8\<close> at offsets 0..8, all nine
  writes succeed, the only host call is the spin of the last write, and the second
  CPU then reads exactly \<open>b0..b8\<close> at offsets 0..8. The second CPU's own writes (up
  to nine bytes from offset 0, as in its reply) leave these reads as they are.
\<close>

theorem latch_bridge_round_trip:
  assumes "length bs = 9"
  shows "\<exists>s1. cpu1_write_seq 0 bs s = Some (s1, [Spin_until_trigger 0 500])
           \<and> cpu2_read_all s1 = map Some bs
           \<and> (\<forall>cs. length cs \<le> 9 \<longrightarrow>
                (\<exists>s2 calls. cpu2_write_seq 0 cs s1 = Some (s2, calls)
                   \<and> cpu2_read_all s2 = map Some bs))"
proof -
  from assms have l: "0 + length bs \<le> 9" and ne: "bs \<noteq> []"
    by auto
  from cpu1_write_seq_buffer [OF l, of s] obtain s1 calls where
    w0: "cpu1_write_seq 0 bs s = Some (s1, calls)"
    and b0: "\<And>i. m_buffer1 s1 i =
       (if 0 \<le> i \<and> i < 0 + length bs then bs ! (i - 0) else m_buffer1 s i)"
    and c0: "calls = (if bs \<noteq> [] \<and> 0 + length bs = 9 then [Spin_until_trigger 0 500] else [])"
    by blast
  from w0 c0 assms ne have w: "cpu1_write_seq 0 bs s = Some (s1, [Spin_until_trigger 0 500])"
    by simp
  from b0 assms have b: "m_buffer1 s1 i = (if i < 9 then bs ! i else m_buffer1 s i)" for i
    by simp
  have r: "map (\<lambda>i. Some (m_buffer1 t i)) [0..<9] = map Some bs"
    if "m_buffer1 t = m_buffer1 s1" for t :: docastle_state
  proof (rule nth_equalityI)
    show "length (map (\<lambda>i. Some (m_buffer1 t i)) [0..<9]) = length (map Some bs)"
      using assms by simp
  next
    fix i assume "i < length (map (\<lambda>i. Some (m_buffer1 t i)) [0..<9])"
    then have "i < 9" by simp
    then show "map (\<lambda>i. Some (m_buffer1 t i)) [0..<9] ! i = map Some bs ! i"
      using assms that b by (simp del: upt_Suc)
  qed
  have g: "\<exists>s2 calls. cpu2_write_seq 0 cs s1 = Some (s2, calls) \<and> cpu2_read_all s2 = map Some bs"
    if "length cs \<le> 9" for cs
  proof -
    from that have "0 + length cs \<le> 9" by simp
    from cpu2_write_seq_buffer [OF this, of s1] obtain s2 calls where
      "cpu2_write_seq 0 cs s1 = Some (s2, calls)" "m_buffer1 s2 = m_buffer1 s1"
      by blast
    with r [of s2] show ?thesis by (simp add: cpu2_read_all_eq)
  qed
  from w r [of s1] g show ?thesis by (simp add: cpu2_read_all_eq)
qed

theorem latch_bridge_round_trip_witness:
  "length [0x11, 0x22, 0x33, 0x44, 0x55, 0x66, 0x77, 0x88, 0x99 :: u8] = 9
   \<and> (\<exists>s1. cpu1_write_seq 0 [0x11, 0x22, 0x33, 0x44, 0x55, 0x66, 0x77, 0x88, 0x99]
              docastle_state_ctor = Some (s1, [Spin_until_trigger 0 500])
         \<and> cpu2_read_all s1
             = [Some 0x11, Some 0x22, Some 0x33, Some 0x44, Some 0x55, Some 0x66, Some 0x77,
                Some 0x88, Some 0x99])"
proof -
  have h: "length [0x11, 0x22, 0x33, 0x44, 0x55, 0x66, 0x77, 0x88, 0x99 :: u8] = 9"
    by simp
  from latch_bridge_round_trip [OF h, of docastle_state_ctor] obtain s1 where
    "cpu1_write_seq 0 [0x11, 0x22, 0x33, 0x44, 0x55, 0x66, 0x77, 0x88, 0x99]
       docastle_state_ctor = Some (s1, [Spin_until_trigger 0 500])"
    "cpu2_read_all s1 = map Some [0x11, 0x22, 0x33, 0x44, 0x55, 0x66, 0x77, 0x88, 0x99]"
    by blast
  with h show ?thesis by simp
qed

section \<open>Reset\<close>

text \<open>
  C8. After the machine reset of the Do's Castle driver both latch buffers hold zero
  at each of the offsets 0..8 and the stored MA6 bit is low; after the machine reset of
  the Mr. Do! driver the protection latch holds 0xff, the complement of zero.
\<close>

theorem machine_reset_state:
  "map (m_buffer0 (docastle_machine_reset s)) [0..<9] = replicate 9 0
   \<and> map (m_buffer1 (docastle_machine_reset s)) [0..<9] = replicate 9 0
   \<and> cpu1_latch_r offset (docastle_machine_reset s) = (if offset < 9 then Some 0 else None)
   \<and> cpu2_latch_r offset (docastle_machine_reset s) = (if offset < 9 then Some 0 else None)
   \<and> m_prev_ma6 (docastle_machine_reset s) = False
   \<and> m_pal_u001 (mrdo_machine_reset m) = 0xff
   \<and> m_pal_u001 (mrdo_machine_reset m) = NOT 0"
  apply (simp add: docastle_machine_reset_def mrdo_machine_reset_def fill9_def
      cpu1_latch_r_def cpu2_latch_r_def)
  apply (simp add: upt_rec numeral_eq_Suc)
  done

section \<open>The MA6 interrupt\<close>

lemma tint_sync:
  "state \<noteq> 0 \<Longrightarrow> tint state ma s =
     (s\<lparr> m_prev_ma6 := bit ma 6 \<rparr>,
      if bit ma 6 \<and> \<not> m_prev_ma6 s then [Set_input_line 1 INPUT_LINE_IRQ0 HOLD_LINE] else [])"
  by (simp add: tint_def Let_def BIT_nonzero)

lemma tint_samples_Cons:
  "tint_samples (ma # mas) s =
     (bit ma 6 \<and> \<not> m_prev_ma6 s) # tint_samples mas (s\<lparr> m_prev_ma6 := bit ma 6 \<rparr>)"
  by (simp add: tint_sync irq_fired_def)

lemma tint_samples_bits:
  "ma6_bits mas = ma6_bits mas' \<Longrightarrow> tint_samples mas s = tint_samples mas' s"
proof (induction mas arbitrary: mas' s)
  case Nil
  then show ?case by (simp add: ma6_bits_def)
next
  case (Cons ma mas)
  then obtain ma' mas'' where m: "mas' = ma' # mas''"
    by (cases mas') (auto simp: ma6_bits_def)
  with Cons.prems have "bit ma 6 = bit ma' 6" "ma6_bits mas = ma6_bits mas''"
    by (simp_all add: ma6_bits_def)
  with Cons.IH [of mas''] m show ?case
    by (simp only: tint_samples_Cons)
qed

lemma tint_samples_nth:
  "i < length mas \<Longrightarrow>
   tint_samples mas s ! i =
     (bit (mas ! i) 6 \<and> \<not> (if i = 0 then m_prev_ma6 s else bit (mas ! (i - 1)) 6))"
proof (induction mas arbitrary: s i)
  case Nil
  then show ?case by simp
next
  case (Cons ma mas)
  show ?case
  proof (cases i)
    case 0
    then show ?thesis by (simp only: tint_samples_Cons) simp
  next
    case (Suc j)
    with Cons.prems have "j < length mas" by simp
    from Cons.IH [OF this, of "s\<lparr> m_prev_ma6 := bit ma 6 \<rparr>"] Suc show ?thesis
      by (simp only: tint_samples_Cons) (cases j; simp)
  qed
qed

text \<open>
  C6. A horizontal-sync sample is a call of \<open>tint\<close> with the sync signal asserted
  (\<open>state\<close> not 0). Each sample raises the interrupt line of the second CPU if and
  only if bit 6 of the sampled counter is 1 and the stored bit is 0, and stores the
  sampled bit whatever the outcome. Over a run of samples that starts at the reset
  state, sample \<open>i\<close> raises the interrupt exactly when its bit is 1 and the bit of
  the sample before it (low, for the first sample) is 0; for the bit sequence
  0,0,1,1,0,1 that is at samples 2 and 5 and nowhere else. A call with the sync
  signal deasserted takes no sample: it changes nothing and raises nothing.
\<close>

theorem tint_rising_edge:
  "(state \<noteq> 0 \<longrightarrow>
      (irq_fired (snd (tint state ma s)) \<longleftrightarrow> bit ma 6 \<and> \<not> m_prev_ma6 s)
      \<and> fst (tint state ma s) = s\<lparr> m_prev_ma6 := bit ma 6 \<rparr>)
   \<and> tint 0 ma s = (s, [])
   \<and> (i < length mas \<longrightarrow>
        tint_samples mas (docastle_machine_reset s) ! i
          = (bit (mas ! i) 6 \<and> \<not> (0 < i \<and> bit (mas ! (i - 1)) 6)))
   \<and> (ma6_bits mas = [False, False, True, True, False, True] \<longrightarrow>
        tint_samples mas (docastle_machine_reset s) = [False, False, True, False, False, True])"
proof -
  have a: "state \<noteq> 0 \<longrightarrow>
      (irq_fired (snd (tint state ma s)) \<longleftrightarrow> bit ma 6 \<and> \<not> m_prev_ma6 s)
      \<and> fst (tint state ma s) = s\<lparr> m_prev_ma6 := bit ma 6 \<rparr>"
    by (simp add: tint_sync irq_fired_def)
  have z: "tint 0 ma s = (s, [])"
    by (simp add: tint_def)
  have n: "tint_samples mas (docastle_machine_reset s) ! i
      = (bit (mas ! i) 6 \<and> \<not> (0 < i \<and> bit (mas ! (i - 1)) 6))" if "i < length mas"
    using tint_samples_nth [OF that, of "docastle_machine_reset s"]
    by (cases i) (simp_all add: docastle_machine_reset_def)
  have b: "tint_samples mas (docastle_machine_reset s) = [False, False, True, False, False, True]"
    if h: "ma6_bits mas = [False, False, True, True, False, True]"
  proof -
    have "ma6_bits mas = ma6_bits [0, 0, 0x40, 0x40, 0, 0x40]"
      using h by (simp add: ma6_bits_def)
    then have "tint_samples mas (docastle_machine_reset s)
        = tint_samples [0, 0, 0x40, 0x40, 0, 0x40] (docastle_machine_reset s)"
      by (rule tint_samples_bits)
    also have "\<dots> = [False, False, True, False, False, True]"
      by (simp add: tint_samples_Cons docastle_machine_reset_def del: tint_samples.simps(2))
    finally show ?thesis .
  qed
  from a z n b show ?thesis by blast
qed

theorem tint_rising_edge_witness:
  "(1::int) \<noteq> 0
   \<and> (2::nat) < length [0x00, 0x3f, 0x40, 0x7f, 0x80, 0xc0 :: u16]
   \<and> ma6_bits [0x00, 0x3f, 0x40, 0x7f, 0x80, 0xc0] = [False, False, True, True, False, True]
   \<and> irq_fired (snd (tint 1 0x40 docastle_state_ctor))
   \<and> m_prev_ma6 (fst (tint 1 0x40 docastle_state_ctor))
   \<and> tint_samples [0x00, 0x3f, 0x40, 0x7f, 0x80, 0xc0] (docastle_machine_reset docastle_state_ctor) ! 2
   \<and> tint_samples [0x00, 0x3f, 0x40, 0x7f, 0x80, 0xc0] (docastle_machine_reset docastle_state_ctor)
       = [False, False, True, False, False, True]"
proof -
  have h: "ma6_bits [0x00, 0x3f, 0x40, 0x7f, 0x80, 0xc0] = [False, False, True, True, False, True]"
    by (simp add: ma6_bits_def)
  have p: "\<not> m_prev_ma6 docastle_state_ctor" "bit (0x40 :: u16) 6"
    by (simp_all add: docastle_state_ctor_def)
  from tint_rising_edge [where state = 1 and ma = "0x40" and s = docastle_state_ctor
      and i = 2 and mas = "[0x00, 0x3f, 0x40, 0x7f, 0x80, 0xc0]"] h p
  show ?thesis by simp
qed

section \<open>Suspension of the first CPU\<close>

lemma slave_step_quiet:
  assumes "in_window e" and "\<not> is_resume e"
  shows "\<exists>s'. slave_step e (s, sch) = Some (s', if e = Tick then tick sch else sch)"
proof (cases e)
  case (Cpu2_read offset)
  with assms show ?thesis by (simp add: in_window_def cpu2_latch_r_def)
next
  case (Cpu2_write offset data)
  with assms have "offset < 9" "offset \<noteq> 8"
    by (simp_all add: in_window_def is_resume_def)
  with Cpu2_write show ?thesis by (simp add: cpu2_latch_w_Some)
next
  case Tick
  then show ?thesis by simp
qed

lemma ticks_Cons: "ticks (e # es) = (if e = Tick then Suc (ticks es) else ticks es)"
  by (simp add: ticks_def)

lemma slave_run_running:
  assumes "\<forall>e \<in> set es. in_window e \<and> \<not> is_resume e" and "wake_at sch cpu = None"
  shows "\<exists>s' sch'. slave_run es (s, sch) = Some (s', sch') \<and> wake_at sch' cpu = None"
  using assms
proof (induction es arbitrary: s sch)
  case Nil
  then show ?case by simp
next
  case (Cons e es)
  then have "in_window e" "\<not> is_resume e" by simp_all
  from slave_step_quiet [OF this, of s sch] obtain s1 where
    st: "slave_step e (s, sch) = Some (s1, if e = Tick then tick sch else sch)"
    by blast
  have "wake_at (if e = Tick then tick sch else sch) cpu = None"
    using Cons.prems(2) by (simp add: tick_def due_def)
  from Cons.IH [OF _ this, of s1] Cons.prems(1) st show ?case by simp
qed

lemma slave_run_suspended:
  assumes "\<forall>e \<in> set es. in_window e \<and> \<not> is_resume e"
    and "wake_at sch cpu = Some w" and "now sch < w"
  shows "\<exists>s' sch'. slave_run es (s, sch) = Some (s', sch')
           \<and> wake_at sch' cpu = (if now sch + ticks es < w then Some w else None)"
  using assms
proof (induction es arbitrary: s sch)
  case Nil
  then show ?case by (simp add: ticks_def)
next
  case (Cons e es)
  then have q: "in_window e" "\<not> is_resume e"
    and r: "\<forall>e \<in> set es. in_window e \<and> \<not> is_resume e"
    by simp_all
  from slave_step_quiet [OF q, of s sch] obtain s1 where
    st: "slave_step e (s, sch) = Some (s1, if e = Tick then tick sch else sch)"
    by blast
  show ?case
  proof (cases "e = Tick \<and> w \<le> Suc (now sch)")
    case True
    then have "wake_at (tick sch) cpu = None"
      using Cons.prems(2) by (simp add: tick_def due_def)
    from slave_run_running [OF r this, of s1] obtain s' sch' where
      "slave_run es (s1, tick sch) = Some (s', sch')" "wake_at sch' cpu = None"
      by blast
    with st True show ?thesis by (simp add: ticks_Cons)
  next
    case False
    let ?sch1 = "if e = Tick then tick sch else sch"
    from False Cons.prems(2,3) have a: "wake_at ?sch1 cpu = Some w" and b: "now ?sch1 < w"
      by (auto simp add: tick_def due_def)
    from Cons.IH [OF r a b, of s1] obtain s' sch' where
      "slave_run es (s1, ?sch1) = Some (s', sch')"
      "wake_at sch' cpu = (if now ?sch1 + ticks es < w then Some w else None)"
      by blast
    with st show ?thesis by (auto simp add: ticks_Cons tick_def)
  qed
qed

text \<open>
  C3. The first CPU's write at offset 8 suspends it with a wake time 500 units ahead.
  If the second CPU then does anything in the latch window except writing offset 8
  (every event of the run is \<open>quiet\<close>), while time passes, the first CPU is suspended exactly as long as fewer than 500
  units have passed: it is running again once 500 units have passed, so the suspension
  never outlasts the bound. A write of offset 8 by the second CPU at any moment of
  such a run resumes the first CPU at once.
\<close>

theorem spin_resumes_within_timeout:
  assumes "list_all quiet es"
  shows "\<exists>s1 sch1 s2 sch2 s3 sch3.
           master_write 8 data (s, sch) = Some (s1, sch1)
         \<and> wake_at sch1 0 = Some (now sch + 500)
         \<and> slave_run es (s1, sch1) = Some (s2, sch2)
         \<and> (wake_at sch2 0 = None \<longleftrightarrow> 500 \<le> ticks es)
         \<and> slave_step (Cpu2_write 8 data') (s2, sch2) = Some (s3, sch3)
         \<and> wake_at sch3 0 = None"
proof -
  let ?s1 = "s\<lparr> m_buffer1 := (m_buffer1 s)(8 := data) \<rparr>"
  let ?sch1 = "spin_until_trigger 0 500 sch"
  have m: "master_write 8 data (s, sch) = Some (?s1, ?sch1)"
    by (simp add: master_write_def cpu1_latch_w_def)
  have w: "wake_at ?sch1 0 = Some (now sch + 500)" and n: "now ?sch1 < now sch + 500"
    by (simp_all add: spin_until_trigger_def)
  from assms have q: "\<forall>e \<in> set es. in_window e \<and> \<not> is_resume e"
    by (simp add: list_all_iff quiet_def)
  from slave_run_suspended [OF q w n, of ?s1] obtain s2 sch2 where
    r: "slave_run es (?s1, ?sch1) = Some (s2, sch2)"
    and k: "wake_at sch2 0
       = (if now ?sch1 + ticks es < now sch + 500 then Some (now sch + 500) else None)"
    by blast
  have t: "slave_step (Cpu2_write 8 data') (s2, sch2)
      = Some (s2\<lparr> m_buffer0 := (m_buffer0 s2)(8 := data') \<rparr>, trigger 500 sch2)"
    by (simp add: cpu2_latch_w_def)
  have "wake_at (trigger 500 sch2) 0 = None"
    by (simp add: trigger_def)
  with m w r k t show ?thesis
    by (auto simp add: spin_until_trigger_def)
qed

theorem spin_resumes_within_timeout_witness:
  "list_all quiet (Cpu2_read 0 # Cpu2_write 3 7 # replicate 500 Tick)
   \<and> (\<exists>s1 sch1 s2 sch2.
           master_write 8 0x55 (docastle_state_ctor, scheduler_start) = Some (s1, sch1)
         \<and> wake_at sch1 0 = Some 500
         \<and> slave_run (Cpu2_read 0 # Cpu2_write 3 7 # replicate 500 Tick) (s1, sch1)
             = Some (s2, sch2)
         \<and> wake_at sch2 0 = None)"
proof -
  have h: "list_all quiet (Cpu2_read 0 # Cpu2_write 3 7 # replicate 500 Tick)"
    by (simp add: list_all_iff quiet_def in_window_def is_resume_def)
  have t: "ticks (Cpu2_read 0 # Cpu2_write 3 7 # replicate 500 Tick) = 500"
    by (simp add: ticks_def)
  have n: "now scheduler_start = 0"
    by (simp add: scheduler_start_def)
  from spin_resumes_within_timeout [OF h, of "0x55" docastle_state_ctor scheduler_start 0] t n
  have "\<exists>s1 sch1 s2 sch2.
           master_write 8 0x55 (docastle_state_ctor, scheduler_start) = Some (s1, sch1)
         \<and> wake_at sch1 0 = Some 500
         \<and> slave_run (Cpu2_read 0 # Cpu2_write 3 7 # replicate 500 Tick) (s1, sch1)
             = Some (s2, sch2)
         \<and> wake_at sch2 0 = None"
    by simp blast
  with h show ?thesis by (simp only: simp_thms)
qed

end
